theory Spec2Isabelle
  imports Main
begin

section \<open>Values, outcomes and the execution state\<close>

text \<open>
  The library is generic in the type \<open>Context\<close> of the bound value. A TypeScript type
  may contain \<open>null\<close> and \<open>undefined\<close>, and the operator \<open>??\<close> used by the read
  operation tells exactly these two apart from every other value, so a value is either one
  of the two or a payload of an arbitrary type.
\<close>

datatype 'a jsval = Undefined | Null | Val 'a

text \<open>The operator \<open>a ?? b\<close>: the right operand exactly when the left one is null or undefined.\<close>

fun nullish_coalesce :: "'a jsval \<Rightarrow> 'a jsval \<Rightarrow> 'a jsval" where
  "nullish_coalesce Undefined b = b"
| "nullish_coalesce Null b = b"
| "nullish_coalesce (Val x) b = Val x"

text \<open>
  The state of one causal chain of execution: for every \<open>AsyncLocalStorage\<close> instance
  (named by a number) the store that is current, if one was ever entered, and the number
  the next instance will get. An operation is an \<open>async\<close> function: it takes the state and
  gives back how its promise settles (\<open>Inl\<close> the rejection reason, \<open>Inr\<close> the resolved
  result) and the state its caller continues in. A suspension point inside an operation does
  not show in this model: the carrier resumes a continuation in the frame it was suspended
  in, so one chain reads as straight-line code.
\<close>

record 'a state =
  stores :: "nat \<Rightarrow> 'a jsval option"
  nextStorage :: nat

type_synonym ('a, 'r, 'e) operation = "'a state \<Rightarrow> ('e + 'r) \<times> 'a state"

definition init_state :: "'a state" where
  "init_state = \<lparr>stores = (\<lambda>_. None), nextStorage = 0\<rparr>"

section \<open>The propagation carrier\<close>

text \<open>
  \<open>context.ts\<close> imports the class \<open>AsyncLocalStorage\<close> from \<open>node:async_hooks\<close>; the
  class is the propagation carrier of the specification and is not part of the sources.
  Its four operations that \<open>context.ts\<close> calls are modelled on the frame of the current
  extent.
\<close>

text \<open>
  Modelled from the spec: the constructor of \<open>AsyncLocalStorage\<close>, missing from the
  sources. Every instance has an identity of its own ("unique per creation call").
\<close>

definition newAsyncLocalStorage :: "'a state \<Rightarrow> nat \<times> 'a state" where
  "newAsyncLocalStorage s = (nextStorage s, s\<lparr>nextStorage := Suc (nextStorage s)\<rparr>)"

text \<open>
  Modelled from the spec: \<open>AsyncLocalStorage.enterWith\<close>, missing from the sources; the
  carrier operation \<open>seed\<close>, which establishes a binding in the current frame.
\<close>

definition enterWith :: "nat \<Rightarrow> 'a jsval \<Rightarrow> 'a state \<Rightarrow> 'a state" where
  "enterWith sid v s = s\<lparr>stores := (stores s)(sid \<mapsto> v)\<rparr>"

text \<open>
  Modelled from the spec: \<open>AsyncLocalStorage.getStore\<close>, missing from the sources; the
  carrier operation \<open>currentBinding\<close>, which reads the binding visible in the calling
  extent and gives undefined when none was ever set.
\<close>

definition getStore :: "nat \<Rightarrow> 'a state \<Rightarrow> 'a jsval" where
  "getStore sid s = (case stores s sid of None \<Rightarrow> Undefined | Some v \<Rightarrow> v)"

text \<open>
  Modelled from the spec: \<open>AsyncLocalStorage.run\<close>, missing from the sources; the carrier
  operation \<open>bindForExtent\<close>, which runs the operation in a nested extent with the value
  bound and restores the previous binding once the operation has settled by any means,
  handing the outcome of the operation on as it is.
\<close>

definition storage_run ::
  "nat \<Rightarrow> 'a jsval \<Rightarrow> ('a, 'r, 'e) operation \<Rightarrow> ('a, 'r, 'e) operation" where
  "storage_run sid v fn s =
     (let prior = stores s sid;
          (outcome, s') = fn (enterWith sid v s)
      in (outcome, s'\<lparr>stores := (stores s')(sid := prior)\<rparr>))"

section \<open>The context handle (\<open>context.ts\<close>)\<close>

text \<open>
  \<open>createContext\<close> returns an object of two closures over the variables \<open>storage\<close> and
  \<open>initialValue\<close>. The handle is the pair of the captured variables, and the two
  closures are the functions \<open>handle_use\<close> and \<open>handle_run\<close> of the handle.
\<close>

record 'a ContextHandle =
  storage :: nat
  initialValue :: "'a jsval"

definition createContext :: "'a jsval \<Rightarrow> 'a state \<Rightarrow> 'a ContextHandle \<times> 'a state" where
  "createContext initial s =
     (let (sid, s1) = newAsyncLocalStorage s;
          s2 = enterWith sid initial s1
      in (\<lparr>storage = sid, initialValue = initial\<rparr>, s2))"

definition handle_use :: "'a ContextHandle \<Rightarrow> 'a state \<Rightarrow> 'a jsval" where
  "handle_use h s =
     (let v = getStore (storage h) s in nullish_coalesce v (initialValue h))"

definition handle_run ::
  "'a ContextHandle \<Rightarrow> 'a jsval \<Rightarrow> ('a, 'r, 'e) operation \<Rightarrow> ('a, 'r, 'e) operation" where
  "handle_run h v fn = storage_run (storage h) v fn"

definition use :: "'a ContextHandle \<Rightarrow> 'a state \<Rightarrow> 'a jsval" where
  "use h = handle_use h"

definition runWithContext ::
  "'a ContextHandle \<Rightarrow> 'a jsval \<Rightarrow> ('a, 'r, 'e) operation \<Rightarrow> ('a, 'r, 'e) operation" where
  "runWithContext h v = (\<lambda>fn. handle_run h v fn)"

section \<open>Client operations\<close>

text \<open>
  What an operation handed to \<open>run\<close> can do with the library: return, throw, read a
  handle, run a nested operation under a binding (directly or through the function that
  \<open>runWithContext\<close> returns), create a handle, and catch the failure of a part of itself.
  \<open>exec\<close> gives such a program its meaning as an operation, through the functions above.
\<close>

datatype ('a, 'r, 'e) prog =
    Return 'r
  | Throw 'e
  | Use "'a ContextHandle" "'a jsval \<Rightarrow> ('a, 'r, 'e) prog"
  | Run "'a ContextHandle" "'a jsval" "('a, 'r, 'e) prog" "'r \<Rightarrow> ('a, 'r, 'e) prog"
  | RunWith "'a ContextHandle" "'a jsval" "('a, 'r, 'e) prog" "'r \<Rightarrow> ('a, 'r, 'e) prog"
  | Create "'a jsval" "'a ContextHandle \<Rightarrow> ('a, 'r, 'e) prog"
  | TryCatch "('a, 'r, 'e) prog" "'r \<Rightarrow> ('a, 'r, 'e) prog" "'e \<Rightarrow> ('a, 'r, 'e) prog"

definition await_then ::
  "('e + 'r) \<times> 'a state \<Rightarrow> ('r \<Rightarrow> ('a, 'r, 'e) operation) \<Rightarrow> ('e + 'r) \<times> 'a state" where
  "await_then settled k =
     (case settled of (Inl e, s) \<Rightarrow> (Inl e, s) | (Inr r, s) \<Rightarrow> k r s)"

primrec exec :: "('a, 'r, 'e) prog \<Rightarrow> ('a, 'r, 'e) operation" where
  "exec (Return r) = (\<lambda>s. (Inr r, s))"
| "exec (Throw e) = (\<lambda>s. (Inl e, s))"
| "exec (Use h k) = (\<lambda>s. exec (k (use h s)) s)"
| "exec (Run h v p k) = (\<lambda>s. await_then (handle_run h v (exec p) s) (\<lambda>r. exec (k r)))"
| "exec (RunWith h v p k) =
     (\<lambda>s. await_then (runWithContext h v (exec p) s) (\<lambda>r. exec (k r)))"
| "exec (Create d k) = (\<lambda>s. exec (k (fst (createContext d s))) (snd (createContext d s)))"
| "exec (TryCatch p k c) =
     (\<lambda>s. case exec p s of
             (Inl e, s') \<Rightarrow> exec (c e) s'
           | (Inr r, s') \<Rightarrow> exec (k r) s')"

text \<open>
  The operations the tests of the library hand to \<open>run\<close>: \<open>async () => use(handle)\<close>;
  the nested scenario, which reads, runs an inner read under a second binding and reads
  again, returning the three values read in that order; and the operation that reads and
  then throws.
\<close>

definition read_op :: "'a ContextHandle \<Rightarrow> ('a, 'a jsval, 'e) prog" where
  "read_op h = Use h Return"

definition nesting :: "'a ContextHandle \<Rightarrow> 'a jsval \<Rightarrow> ('a, 'a jsval list, 'e) prog" where
  "nesting h inner =
     Use h (\<lambda>outerValue.
       Run h inner (Use h (\<lambda>innerValue. Return [outerValue, innerValue]))
         (\<lambda>innerResult. Use h (\<lambda>outerValueAfter. Return (innerResult @ [outerValueAfter]))))"

definition failing_op :: "'a ContextHandle \<Rightarrow> 'e \<Rightarrow> ('a, 'r, 'e) prog" where
  "failing_op h e = Use h (\<lambda>contextBeforeError. Throw e)"

text \<open>
  \<open>extends s t\<close>: the state \<open>t\<close> has every storage instance of \<open>s\<close>, each with the
  store it has in \<open>s\<close>.
\<close>

definition extends :: "'a state \<Rightarrow> 'a state \<Rightarrow> bool" where
  "extends s t \<longleftrightarrow>
     nextStorage s \<le> nextStorage t \<and> (\<forall>sid < nextStorage s. stores t sid = stores s sid)"

section \<open>Facts about the carrier and the handle\<close>



lemma storage_run_outcome:
  "fst (storage_run sid v fn s) = fst (fn (enterWith sid v s))"
  by (simp add: storage_run_def split: prod.splits)

lemma storage_run_stores:
  "stores (snd (storage_run sid v fn s)) =
     (stores (snd (fn (enterWith sid v s))))(sid := stores s sid)"
  by (simp add: storage_run_def split: prod.splits)

lemma storage_run_nextStorage:
  "nextStorage (snd (storage_run sid v fn s)) = nextStorage (snd (fn (enterWith sid v s)))"
  by (simp add: storage_run_def split: prod.splits)

lemma enterWith_simps:
  "stores (enterWith sid v s) = (stores s)(sid \<mapsto> v)"
  "nextStorage (enterWith sid v s) = nextStorage s"
  by (simp_all add: enterWith_def)

lemma createContext_simps:
  "storage (fst (createContext d s)) = nextStorage s"
  "initialValue (fst (createContext d s)) = d"
  "stores (snd (createContext d s)) = (stores s)(nextStorage s \<mapsto> d)"
  "nextStorage (snd (createContext d s)) = Suc (nextStorage s)"
  by (simp_all add: createContext_def newAsyncLocalStorage_def enterWith_def)

lemma use_eq: "use h s = nullish_coalesce (getStore (storage h) s) (initialValue h)"
  by (simp add: use_def handle_use_def)

lemma use_cong_slot:
  "stores s' (storage h) = stores s (storage h) \<Longrightarrow> use h s' = use h s"
  by (simp add: use_eq getStore_def)

lemma use_enterWith_same:
  "use h (enterWith (storage h) v s) = nullish_coalesce v (initialValue h)"
  by (simp add: use_eq getStore_def enterWith_simps)


lemma handle_run_outcome:
  "fst (handle_run h v fn s) = fst (fn (enterWith (storage h) v s))"
  by (simp add: handle_run_def storage_run_outcome)

lemma handle_run_slot:
  "stores (snd (handle_run h v fn s)) (storage h) = stores s (storage h)"
  by (simp add: handle_run_def storage_run_stores)

lemma handle_run_read:
  "fst (handle_run h v (exec (read_op h)) s) = Inr (nullish_coalesce v (initialValue h))"
  by (simp add: handle_run_outcome read_op_def use_enterWith_same)

lemma await_then_simps:
  "await_then (Inl e, s) k = (Inl e, s)"
  "await_then (Inr r, s) k = k r s"
  by (simp_all add: await_then_def)

lemma nesting_result:
  "fst (handle_run h A (exec (nesting h B)) s) =
     Inr [nullish_coalesce A (initialValue h), nullish_coalesce B (initialValue h),
          nullish_coalesce A (initialValue h)]"
  by (simp add: nesting_def handle_run_def storage_run_def await_then_def use_eq getStore_def
      enterWith_def)

section \<open>The stack discipline\<close>

text \<open>
  No operation built from the library changes the store of a storage instance that existed
  when it started: every \<open>run\<close> inside it puts back what it replaced, and a creation
  writes the slot of a new instance only.
\<close>

lemma extends_refl: "extends s s"
  by (simp add: extends_def)

lemma extends_trans: "extends s t \<Longrightarrow> extends t u \<Longrightarrow> extends s u"
  by (auto simp: extends_def)



lemma createContext_extends: "extends s (snd (createContext d s))"
  by (simp add: extends_def createContext_simps)

lemma handle_run_extends:
  assumes "extends (enterWith (storage h) v s) (snd (fn (enterWith (storage h) v s)))"
  shows "extends s (snd (handle_run h v fn s))"
  using assms
  by (auto simp: extends_def handle_run_def storage_run_stores storage_run_nextStorage
      enterWith_simps)

lemma await_then_extends:
  assumes "extends s (snd settled)" and "\<And>r t. extends t (snd (k r t))"
  shows "extends s (snd (await_then settled k))"
proof (cases settled)
  case (Pair outcome t)
  show ?thesis
  proof (cases outcome)
    case (Inl e)
    with Pair assms(1) show ?thesis by (simp add: await_then_simps)
  next
    case (Inr r)
    with Pair assms(1) have "extends s t" by simp
    from extends_trans [OF this assms(2) [of t r]] Pair Inr
    show ?thesis by (simp add: await_then_simps)
  qed
qed

lemma exec_extends: "extends s (snd (exec p s))"
proof (induction p arbitrary: s)
  case (Return r)
  show ?case by (simp add: extends_refl)
next
  case (Throw e)
  show ?case by (simp add: extends_refl)
next
  case (Use h k)
  show ?case using Use.IH [of "k (use h s)" s] by simp
next
  case (Run h v p k)
  have "extends s (snd (handle_run h v (exec p) s))"
    by (rule handle_run_extends) (rule Run.IH(1))
  then show ?case
    using Run.IH(2) by (simp add: await_then_extends)
next
  case (RunWith h v p k)
  have "extends s (snd (handle_run h v (exec p) s))"
    by (rule handle_run_extends) (rule RunWith.IH(1))
  then show ?case
    using RunWith.IH(2) by (simp add: await_then_extends runWithContext_def)
next
  case (Create d k)
  have "extends (snd (createContext d s)) (snd (exec (Create d k) s))"
    using Create.IH [of "k (fst (createContext d s))" "snd (createContext d s)"] by simp
  with createContext_extends [of s d] show ?case by (rule extends_trans)
next
  case (TryCatch p k c)
  obtain outcome t where pt: "exec p s = (outcome, t)" by (cases "exec p s")
  with TryCatch.IH(1) [of s] have st: "extends s t" by simp
  show ?case
  proof (cases outcome)
    case (Inl e)
    have "extends t (snd (exec (c e) t))" using TryCatch.IH(3) [of "c e" t] by simp
    with st pt Inl show ?thesis by (simp add: extends_trans)
  next
    case (Inr r)
    have "extends t (snd (exec (k r) t))" using TryCatch.IH(2) [of "k r" t] by simp
    with st pt Inr show ?thesis by (simp add: extends_trans)
  qed
qed



section \<open>Reading inside an extent\<close>

text \<open>
  The claim C1 as it is written, for every value, fails at a bound \<open>null\<close>: on the
  handle of \<open>createContext('initial')\<close>, \<open>run(null, async () => use(handle))\<close> resolves
  to \<open>'initial'\<close>, because \<open>use\<close> returns \<open>value ?? initialValue\<close>.
\<close>

theorem run_read_null_counterexample:
  "fst (handle_run (fst (createContext (Val ''initial'') init_state)) Null
          (exec (read_op (fst (createContext (Val ''initial'') init_state))))
          (snd (createContext (Val ''initial'') init_state)))
     = (Inr (Val ''initial'') :: unit + string jsval)
   \<and> (Inr (Val ''initial'') :: unit + string jsval) \<noteq> Inr Null"
  by (simp add: handle_run_read createContext_simps)

text \<open>
  C1 (amended). For every handle, every state and every value \<open>V\<close> that is neither null
  nor undefined, \<open>run(V, operation)\<close> where the operation reads the handle resolves to
  \<open>V\<close>: the read inside the extent created by \<open>run\<close> returns the value bound by that call.
\<close>

theorem run_read_yields_bound_value:
  "V \<noteq> Null \<Longrightarrow> V \<noteq> Undefined \<Longrightarrow> fst (handle_run h V (exec (read_op h)) s) = Inr V"
  by (cases V) (simp_all add: handle_run_read)

theorem run_read_yields_bound_value_witness:
  "Val ''test'' \<noteq> (Null :: string jsval) \<and> Val ''test'' \<noteq> (Undefined :: string jsval) \<and>
   fst (handle_run (fst (createContext (Val ''initial'') init_state)) (Val ''test'')
          (exec (read_op (fst (createContext (Val ''initial'') init_state))))
          (snd (createContext (Val ''initial'') init_state)))
     = (Inr (Val ''test'') :: unit + string jsval)"
  using run_read_yields_bound_value [of "Val ''test''"
      "fst (createContext (Val ''initial'') init_state)"
      "snd (createContext (Val ''initial'') init_state)"]
  by simp

text \<open>
  C10. Inside \<open>run(null, ...)\<close> and inside \<open>run(undefined, ...)\<close> a read of the handle
  returns the initial value of the handle, not the bound value; inside \<open>run(V, ...)\<close> for
  a value \<open>V\<close> that is neither, it returns \<open>V\<close>.
\<close>

theorem use_coalesces_nullish:
  "fst (handle_run h Null (exec (read_op h)) s) = Inr (initialValue h) \<and>
   fst (handle_run h Undefined (exec (read_op h)) s) = Inr (initialValue h) \<and>
   fst (handle_run h (Val x) (exec (read_op h)) s) = Inr (Val x)"
  by (simp add: handle_run_read)

section \<open>Restoration on exit\<close>

text \<open>
  C2. For every handle, value, operation and state, whatever the outcome of the operation
  (resolved or rejected), after \<open>run(V, operation)\<close> has settled the storage of the
  handle holds the store it held before the call, and a read of the handle in the calling
  extent returns what a read returned before the call.
\<close>

theorem run_restores_binding:
  "stores (snd (handle_run h v fn s)) (storage h) = stores s (storage h) \<and>
   use h (snd (handle_run h v fn s)) = use h s"
  using use_cong_slot [of "snd (handle_run h v fn s)" h s]
  by (simp add: handle_run_slot)

text \<open>
  C3. If the operation, started in the extent where the value is bound, fails with the
  error \<open>E\<close>, then \<open>run\<close> fails with \<open>E\<close> itself, and the state in which the caller
  receives the failure has the binding of the handle reverted: a read of the handle there
  returns what it returned before the call.
\<close>

theorem run_reraises_and_restores:
  "fst (fn (enterWith (storage h) v s)) = Inl E \<Longrightarrow>
   fst (handle_run h v fn s) = Inl E \<and>
   stores (snd (handle_run h v fn s)) (storage h) = stores s (storage h) \<and>
   use h (snd (handle_run h v fn s)) = use h s"
  using use_cong_slot [of "snd (handle_run h v fn s)" h s]
  by (simp add: handle_run_outcome handle_run_slot)

theorem run_reraises_and_restores_witness:
  "fst (exec (failing_op (fst (createContext (Val ''initial'') init_state)) ''Test error'')
          (enterWith (storage (fst (createContext (Val ''initial'') init_state)))
             (Val ''error-context'') (snd (createContext (Val ''initial'') init_state))))
     = (Inl ''Test error'' :: string + unit) \<and>
   fst (handle_run (fst (createContext (Val ''initial'') init_state)) (Val ''error-context'')
          (exec (failing_op (fst (createContext (Val ''initial'') init_state)) ''Test error''))
          (snd (createContext (Val ''initial'') init_state)))
     = (Inl ''Test error'' :: string + unit) \<and>
   use (fst (createContext (Val ''initial'') init_state))
     (snd (handle_run (fst (createContext (Val ''initial'') init_state)) (Val ''error-context'')
          (exec (failing_op (fst (createContext (Val ''initial'') init_state)) ''Test error''
                   :: (string, unit, string) prog))
          (snd (createContext (Val ''initial'') init_state))))
     = Val ''initial''"
  using run_reraises_and_restores
      [of "exec (failing_op (fst (createContext (Val ''initial'') init_state)) ''Test error''
                   :: (string, unit, string) prog)"
      "fst (createContext (Val ''initial'') init_state)" "Val ''error-context''"
      "snd (createContext (Val ''initial'') init_state)" "''Test error''"]
  by (simp add: failing_op_def use_eq getStore_def createContext_simps)

section \<open>Nesting\<close>

text \<open>
  The claim C4 as it is written, for all values \<open>A \<noteq> B\<close>, fails at \<open>A = null\<close>: on the
  handle of \<open>createContext('initial')\<close> the nested scenario under \<open>run(null, ...)\<close> with
  the inner value \<open>'inner'\<close> reads \<open>'initial'\<close>, \<open>'inner'\<close>, \<open>'initial'\<close>.
\<close>

theorem nested_runs_null_counterexample:
  "(Null :: string jsval) \<noteq> Val ''inner'' \<and>
   fst (handle_run (fst (createContext (Val ''initial'') init_state)) Null
          (exec (nesting (fst (createContext (Val ''initial'') init_state)) (Val ''inner'')))
          (snd (createContext (Val ''initial'') init_state)))
     = (Inr [Val ''initial'', Val ''inner'', Val ''initial''] :: unit + string jsval list)
   \<and> (Inr [Val ''initial'', Val ''inner'', Val ''initial''] :: unit + string jsval list)
       \<noteq> Inr [Null, Val ''inner'', Null]"
  by (simp add: nesting_result createContext_simps)

text \<open>
  C4 (amended). For every handle and all values \<open>A \<noteq> B\<close> neither of which is null or
  undefined: inside \<open>run(A, ...)\<close> a read yields \<open>A\<close>, inside an inner \<open>run(B, ...)\<close> a
  read yields \<open>B\<close>, and after the inner run has returned a read in the outer extent
  yields \<open>A\<close> again.
\<close>

theorem nested_runs_stack:
  "a \<noteq> b \<Longrightarrow>
   fst (handle_run h (Val a) (exec (nesting h (Val b))) s) = Inr [Val a, Val b, Val a]"
  by (simp add: nesting_result)

theorem nested_runs_stack_witness:
  "''outer'' \<noteq> ''inner'' \<and>
   fst (handle_run (fst (createContext (Val ''initial'') init_state)) (Val ''outer'')
          (exec (nesting (fst (createContext (Val ''initial'') init_state)) (Val ''inner'')))
          (snd (createContext (Val ''initial'') init_state)))
     = (Inr [Val ''outer'', Val ''inner'', Val ''outer''] :: unit + string jsval list)"
  using nested_runs_stack [of "''outer''" "''inner''"
      "fst (createContext (Val ''initial'') init_state)"
      "snd (createContext (Val ''initial'') init_state)"]
  by simp

section \<open>Creation and reading\<close>

text \<open>
  C5. For every default value \<open>D\<close> and every state, creation stores \<open>D\<close> in the storage of
  the new handle, a read of the new handle right after creation returns \<open>D\<close>, and so does
  a read in the same extent after any operation has run there to completion, outside
  every \<open>run\<close> on the handle.
\<close>

theorem fresh_handle_reads_default:
  "use (fst (createContext D s)) (snd (createContext D s)) = D \<and>
   stores (snd (createContext D s)) (storage (fst (createContext D s))) = Some D \<and>
   use (fst (createContext D s)) (snd (exec p (snd (createContext D s)))) = D"
proof -
  let ?h = "fst (createContext D s)" and ?s = "snd (createContext D s)"
  have seeded: "stores ?s (storage ?h) = Some D"
    by (simp add: createContext_simps)
  have now: "use ?h ?s = D"
    by (cases D) (simp_all add: use_eq getStore_def createContext_simps)
  have "storage ?h < nextStorage ?s"
    by (simp add: createContext_simps)
  with exec_extends [of ?s p]
  have "stores (snd (exec p ?s)) (storage ?h) = stores ?s (storage ?h)"
    by (simp add: extends_def)
  then have "use ?h (snd (exec p ?s)) = use ?h ?s"
    by (rule use_cong_slot)
  with now seeded show ?thesis by simp
qed


section \<open>The scoped invoker\<close>

text \<open>
  C6. The function returned by \<open>runWithContext handle value\<close>, applied to an operation,
  gives the same outcome and the same final state as \<open>handle.run(value, operation)\<close>, for
  every handle, value, operation and state; the returned function is determined by the
  handle and the value alone.
\<close>

theorem runWithContext_is_handle_run:
  "runWithContext h v fn s = handle_run h v fn s \<and> runWithContext h v = handle_run h v"
  by (simp add: runWithContext_def)

section \<open>Independent handles\<close>



end
